theory Spec2Isabelle
  imports Main "HOL-Library.Char_ord" "HOL-Library.List_Lexorder" "HOL-Library.Sublist"
    "HOL-Library.Multiset"
begin

section \<open>failman: the build joiner, the failure classifier and the report renderer\<close>

text \<open>
  A shallow embedding of \<^verbatim>\<open>src/failman.py\<close>. A Python \<^verbatim>\<open>str\<close> is a
  \<^typ>\<open>string\<close>, each \<^typ>\<open>char\<close> standing for one code point below 256; the order on
  strings is the lexicographic order on code points, which is how Python compares
  \<^verbatim>\<open>str\<close> values. The decoded JSON objects of the CI server are records: a key the
  source reads with \<^verbatim>\<open>d["key"]\<close> is a field, a key it reads with
  \<^verbatim>\<open>d.get("key")\<close> is an optional field (\<open>None\<close> when the key is absent).
\<close>

subsection \<open>Data model\<close>

text \<open>The dataclass \<^verbatim>\<open>Build\<close>. The joiner fills \<^verbatim>\<open>status\<close> from
  \<^verbatim>\<open>build_data.get("state_string")\<close>, so the field holds \<open>None\<close> when the key is
  absent, whatever the annotation \<^verbatim>\<open>status: str\<close> says.\<close>

record Build =
  name :: string
  url :: string
  commit :: string
  branch :: string
  status :: "string option"

text \<open>An element of the \<^verbatim>\<open>builders\<close> array of \<^verbatim>\<open>GET /builders\<close>.\<close>

record builder =
  builderid :: int
  builder_name :: string

text \<open>An element of the \<^verbatim>\<open>builds\<close> array of a change.\<close>

record build_data =
  build_builderid :: int
  number :: "int option"
  state_string :: "string option"

text \<open>An element of the \<^verbatim>\<open>changes\<close> array: \<^verbatim>\<open>sourcestamp.branch\<close>,
  \<^verbatim>\<open>sourcestamp.revision\<close> and \<^verbatim>\<open>builds\<close>.\<close>

record change =
  sourcestamp_branch :: string
  sourcestamp_revision :: string
  change_builds :: "build_data list"

text \<open>The part of the configuration document that the program reads.\<close>

record configuration =
  branches :: "string list"
  builder_filter :: "string list option"

datatype py_error = AttributeError

subsection \<open>Python string primitives\<close>

text \<open>\<^verbatim>\<open>str.lower\<close> on one code point below 256: the letters A..Z, and the Latin-1
  capitals 0xC0..0xDE other than the multiplication sign 0xD7, move up by 32.\<close>

definition lower_char :: "char \<Rightarrow> char" where
  "lower_char c =
     (let n = (of_char c :: nat)
      in if (65 \<le> n \<and> n \<le> 90) \<or> (192 \<le> n \<and> n \<le> 222 \<and> n \<noteq> 215)
         then char_of (n + 32) else c)"

definition lower :: "string \<Rightarrow> string" where
  "lower s = map lower_char s"

text \<open>\<^verbatim>\<open>str(n)\<close> for an integer, as an f-string renders it.\<close>

definition digit_char :: "nat \<Rightarrow> char" where
  "digit_char d = char_of (48 + d)"

function str_nat :: "nat \<Rightarrow> string" where
  "str_nat n = (if n < 10 then [digit_char n] else str_nat (n div 10) @ [digit_char (n mod 10)])"
  by pat_completeness auto
termination
  by (relation "measure (\<lambda>n. n)") auto

definition str_int :: "int \<Rightarrow> string" where
  "str_int i = (if i < 0 then ''-'' @ str_nat (nat (- i)) else str_nat (nat i))"

text \<open>An f-string field holding an optional value: \<open>None\<close> renders as the word
  \<^verbatim>\<open>None\<close>.\<close>

definition fmt_opt_int :: "int option \<Rightarrow> string" where
  "fmt_opt_int x = (case x of None \<Rightarrow> ''None'' | Some i \<Rightarrow> str_int i)"

definition fmt_opt_str :: "string option \<Rightarrow> string" where
  "fmt_opt_str x = (case x of None \<Rightarrow> ''None'' | Some s \<Rightarrow> s)"

text \<open>\<^verbatim>\<open>sep.join(parts)\<close>.\<close>

fun join_str :: "string \<Rightarrow> string list \<Rightarrow> string" where
  "join_str sep [] = []"
| "join_str sep [p] = p"
| "join_str sep (p # q # ps) = p @ sep @ join_str sep (q # ps)"

subsection \<open>The failure classifier\<close>

text \<open>Lines 192--196, the list comprehension
  \<^verbatim>\<open>[b for b in BUILDS if b.status.lower() not in [...]]\<close>. The rows are visited in
  order; \<^verbatim>\<open>b.status.lower()\<close> raises \<^verbatim>\<open>AttributeError\<close> on a row whose status is
  \<open>None\<close>, and the comprehension yields nothing then.\<close>

definition non_failing :: "string list" where
  "non_failing = [''acquiring locks'', ''building'', ''build successful'', ''preparing worker'']"

fun failed_builds :: "Build list \<Rightarrow> py_error + Build list" where
  "failed_builds [] = Inr []"
| "failed_builds (b # bs) =
     (case status b of
        None \<Rightarrow> Inl AttributeError
      | Some s \<Rightarrow>
          (case failed_builds bs of
             Inl e \<Rightarrow> Inl e
           | Inr r \<Rightarrow> Inr (if lower s \<notin> set non_failing then b # r else r)))"

subsection \<open>The build joiner\<close>

text \<open>Line 143, \<^verbatim>\<open>{b["builderid"]: b for b in builds}\<close>: the entries are stored in list
  order, a later entry replacing an earlier one under the same key.\<close>

definition build_map :: "build_data list \<Rightarrow> (int \<rightharpoonup> build_data)" where
  "build_map builds = fold (\<lambda>b m. m(build_builderid b \<mapsto> b)) builds Map.empty"

definition detail_url :: "string \<Rightarrow> builder \<Rightarrow> build_data \<Rightarrow> string" where
  "detail_url buildbot_url b d =
     buildbot_url @ ''#/builders/'' @ str_int (builderid b) @ ''/builds/'' @ fmt_opt_int (number d)"

definition make_build :: "string \<Rightarrow> string \<Rightarrow> string \<Rightarrow> builder \<Rightarrow> build_data \<Rightarrow> Build" where
  "make_build br revision buildbot_url b d =
     \<lparr>name = builder_name b, url = detail_url buildbot_url b d, commit = revision,
      branch = br, status = state_string d\<rparr>"

text \<open>One turn of the loop of lines 145--158. The test \<^verbatim>\<open>if build_data:\<close> is the
  truth value of the entry found: \<open>None\<close> is false, and an entry of the index is a
  dictionary holding at least the key \<^verbatim>\<open>builderid\<close>, so it is true.\<close>

definition join_step ::
  "(int \<rightharpoonup> build_data) \<Rightarrow> string \<Rightarrow> string \<Rightarrow> string \<Rightarrow> Build list \<Rightarrow> builder \<Rightarrow> Build list" where
  "join_step bm br revision buildbot_url acc b =
     (case bm (builderid b) of
        None \<Rightarrow> acc
      | Some d \<Rightarrow> acc @ [make_build br revision buildbot_url b d])"

definition join_builders_with_change ::
  "builder list \<Rightarrow> build_data list \<Rightarrow> string \<Rightarrow> string \<Rightarrow> string \<Rightarrow> Build list" where
  "join_builders_with_change builders builds br revision buildbot_url =
     foldl (join_step (build_map builds) br revision buildbot_url) [] builders"

subsection \<open>The CSV projection\<close>

text \<open>\<^verbatim>\<open>csv.writer\<close> with its default dialect: delimiter comma, quote character
  \<open>0x22\<close>, minimal quoting with doubled quotes, line terminator CR LF. A field is
  quoted when it holds the delimiter, the quote character, CR or LF; \<open>None\<close> is written
  as the empty field; a record of one empty field is written as two quote characters.\<close>

definition dq :: char where
  "dq = CHR 0x22"

definition csv_special :: "char \<Rightarrow> bool" where
  "csv_special c = (c = CHR '','' \<or> c = dq \<or> c = CHR 0x0D \<or> c = CHR 0x0A)"

definition csv_escape :: "string \<Rightarrow> string" where
  "csv_escape s = concat (map (\<lambda>c. if c = dq then [dq, dq] else [c]) s)"

definition csv_field :: "string option \<Rightarrow> string" where
  "csv_field f =
     (case f of
        None \<Rightarrow> []
      | Some s \<Rightarrow> if list_ex csv_special s then [dq] @ csv_escape s @ [dq] else s)"

definition csv_record :: "string option list \<Rightarrow> string" where
  "csv_record row =
     (let body = join_str '','' (map csv_field row)
      in (if length row = 1 \<and> body = [] then [dq, dq] else body) @ [CHR 0x0D, CHR 0x0A])"

text \<open>\<^verbatim>\<open>writer.writerow(row)\<close> on the \<^verbatim>\<open>StringIO\<close> buffer \<open>output\<close>.\<close>

definition writerow :: "string \<Rightarrow> string option list \<Rightarrow> string" where
  "writerow output row = output @ csv_record row"

definition csv_header :: "string option list" where
  "csv_header = [Some ''Branch'', Some ''Build'', Some ''Commit'', Some ''Status'', Some ''URL'']"

definition csv_fields :: "Build \<Rightarrow> string option list" where
  "csv_fields b = [Some (branch b), Some (name b), Some (commit b), status b, Some (url b)]"

definition builds_to_csv :: "Build list \<Rightarrow> string" where
  "builds_to_csv builds =
     foldl (\<lambda>output b. writerow output (csv_fields b)) (writerow [] csv_header) builds"

subsection \<open>The HTML projection\<close>

text \<open>\<^verbatim>\<open>grouped[b.branch].append(b)\<close> on the \<^verbatim>\<open>defaultdict(list)\<close>, kept as an
  association list in insertion order.\<close>

fun grouped_append :: "(string \<times> Build list) list \<Rightarrow> Build \<Rightarrow> (string \<times> Build list) list" where
  "grouped_append [] b = [(branch b, [b])]"
| "grouped_append ((k, vs) # g) b =
     (if k = branch b then (k, vs @ [b]) # g else (k, vs) # grouped_append g b)"

definition group_by_branch :: "Build list \<Rightarrow> (string \<times> Build list) list" where
  "group_by_branch builds = foldl grouped_append [] builds"

text \<open>\<^verbatim>\<open>grouped[branch]\<close>; a \<^verbatim>\<open>defaultdict(list)\<close> answers a missing key with the
  empty list.\<close>

definition grouped_get :: "(string \<times> Build list) list \<Rightarrow> string \<Rightarrow> Build list" where
  "grouped_get g k = (case map_of g k of None \<Rightarrow> [] | Some vs \<Rightarrow> vs)"

text \<open>\<^verbatim>\<open>sorted(grouped.keys(), reverse=True)\<close>. The keys of a dictionary are distinct,
  so the descending stable sort is the ascending sort reversed.\<close>

definition sorted_branches :: "(string \<times> Build list) list \<Rightarrow> string list" where
  "sorted_branches g = rev (sort (map fst g))"

definition separator :: string where
  "separator = ''<hr style='border:none;border-top:1px solid #ccc;margin:20px 0;'>''"

definition html_row :: "Build \<Rightarrow> string" where
  "html_row b =
     (let hyperlink = ''<a href='' @ [dq] @ url b @ [dq] @ ''>'' @ name b @ ''</a>''
      in ''<tr>'' @ ''<td>'' @ hyperlink @ ''</td>'' @ ''<td>'' @ commit b @ ''</td>''
         @ ''<td>'' @ fmt_opt_str (status b) @ ''</td>'' @ ''</tr>'')"

text \<open>\<^verbatim>\<open>sorted(builds_in_branch, key=lambda b: b.name.lower())\<close>: a stable sort, as
  \<^const>\<open>sort_key\<close> is.\<close>

definition builds_in_branch_sorted :: "Build list \<Rightarrow> Build list" where
  "builds_in_branch_sorted builds_in_branch = sort_key (\<lambda>b. lower (name b)) builds_in_branch"

definition table_html :: "Build list \<Rightarrow> string" where
  "table_html sorted_builds =
     (let rows = ''<tr><th>Build</th><th>Commit</th><th>Status</th></tr>'' # map html_row sorted_builds
      in ''<table border='1' cellpadding='4' cellspacing='0' style='border-collapse:collapse'>''
         @ concat rows @ ''</table>'')"

text \<open>The four parts that one turn of the loop of lines 63--88 appends to
  \<^verbatim>\<open>html_parts\<close>.\<close>

definition branch_parts :: "string \<Rightarrow> Build list \<Rightarrow> string list" where
  "branch_parts br builds_in_branch =
     [''<h3>Branch: '' @ br @ ''</h3>'', separator,
      table_html (builds_in_branch_sorted builds_in_branch), separator]"

definition html_parts :: "Build list \<Rightarrow> string list" where
  "html_parts builds =
     (let grouped = group_by_branch builds
      in foldl (\<lambda>parts br. parts @ branch_parts br (grouped_get grouped br)) []
           (sorted_branches grouped))"

definition builds_to_html_table :: "Build list \<Rightarrow> string" where
  "builds_to_html_table builds = join_str [CHR 0x0A] (html_parts builds)"

subsection \<open>The mailer and the top level\<close>

text \<open>The values read from the environment at lines 165--174.\<close>

record environment =
  subject :: string
  sender :: string
  recipient :: string
  buildbot_url :: string
  smtp_relay :: string
  smtp_port :: int

text \<open>One call of \<^verbatim>\<open>smtp.sendmail\<close>: the message that
  \<^verbatim>\<open>send_email_with_csv\<close> composes, by its headers, the text of its HTML part and
  the name and payload of its attachment (before the base64 transfer encoding), and the
  relay it is handed to.\<close>

record mail =
  mail_from :: string
  mail_to :: string
  mail_subject :: string
  mail_html :: string
  attachment_filename :: string
  attachment_payload :: string
  relay :: string
  port :: int

text \<open>What a run leaves behind: the mail-send calls and the lines printed, in order.\<close>

record world =
  sent :: "mail list"
  printed :: "string list"

definition send_email_with_csv ::
  "string \<Rightarrow> string \<Rightarrow> string \<Rightarrow> string \<Rightarrow> string \<Rightarrow> string \<Rightarrow> int \<Rightarrow> world \<Rightarrow> world" where
  "send_email_with_csv sender_email recipient_email subj html_body csv_content smtp_relay_v smtp_port_v w =
     w\<lparr>sent := sent w @
          [\<lparr>mail_from = sender_email, mail_to = recipient_email, mail_subject = subj,
            mail_html = html_body, attachment_filename = ''builds_report.csv'',
            attachment_payload = csv_content, relay = smtp_relay_v, port = smtp_port_v\<rparr>]\<rparr>"

definition print :: "string \<Rightarrow> world \<Rightarrow> world" where
  "print line w = w\<lparr>printed := printed w @ [line]\<rparr>"

text \<open>Lines 178--179: \<^verbatim>\<open>set(config["configuration"].get("builder_filter") or [])\<close>
  and the comprehension that keeps a builder when that set is empty or holds its name.\<close>

definition filter_builders :: "string list option \<Rightarrow> builder list \<Rightarrow> builder list" where
  "filter_builders bf builders =
     (let filtered_builders = set (case bf of None \<Rightarrow> [] | Some l \<Rightarrow> l)
      in filter (\<lambda>b. filtered_builders = {} \<or> builder_name b \<in> filtered_builders) builders)"

text \<open>Lines 181--191. The answer of the server to
  \<^verbatim>\<open>get_latest_builds_on_branch(branch, api_url)\<close> is the parameter
  \<open>latest_changes\<close>; only its first element is used.\<close>

definition collect_step ::
  "string \<Rightarrow> builder list \<Rightarrow> (string \<Rightarrow> change list) \<Rightarrow> Build list \<Rightarrow> string \<Rightarrow> Build list" where
  "collect_step base builders latest_changes BUILDS br =
     (case latest_changes br of
        [] \<Rightarrow> BUILDS
      | c # _ \<Rightarrow>
          BUILDS @ join_builders_with_change builders (change_builds c)
                     (sourcestamp_branch c) (sourcestamp_revision c) base)"

definition collect_builds ::
  "string \<Rightarrow> configuration \<Rightarrow> builder list \<Rightarrow> (string \<Rightarrow> change list) \<Rightarrow> Build list" where
  "collect_builds base config builders latest_changes =
     foldl (collect_step base builders latest_changes) [] (branches config)"

text \<open>Lines 192--205: classify, then either render and send, or print.\<close>

definition report :: "environment \<Rightarrow> Build list \<Rightarrow> world \<Rightarrow> py_error + world" where
  "report env BUILDS w =
     (case failed_builds BUILDS of
        Inl e \<Rightarrow> Inl e
      | Inr failed \<Rightarrow>
          if failed \<noteq> [] then
            (let html_content = builds_to_html_table failed;
                 csv_content = builds_to_csv failed
             in Inr (send_email_with_csv (sender env) (recipient env) (subject env)
                       html_content csv_content (smtp_relay env) (smtp_port env) w))
          else Inr (print ''Grab a coffee and enjoy a bug free world!'' w))"

text \<open>The whole of \<^verbatim>\<open>__main__\<close>, from the roster and the changes the server
  answers with.\<close>

definition main ::
  "environment \<Rightarrow> configuration \<Rightarrow> builder list \<Rightarrow> (string \<Rightarrow> change list) \<Rightarrow> world \<Rightarrow> py_error + world" where
  "main env config roster latest_changes w =
     (let builders = filter_builders (builder_filter config) roster
      in report env (collect_builds (buildbot_url env) config builders latest_changes) w)"

subsection \<open>Notions used to state the properties\<close>

text \<open>Two code points that are equal, or the same letter A..Z in different cases.\<close>

definition same_letter :: "char \<Rightarrow> char \<Rightarrow> bool" where
  "same_letter c d =
     (c = d
      \<or> (65 \<le> (of_char c :: nat) \<and> (of_char c :: nat) \<le> 90 \<and> (of_char d :: nat) = of_char c + 32)
      \<or> (65 \<le> (of_char d :: nat) \<and> (of_char d :: nat) \<le> 90 \<and> (of_char c :: nat) = of_char d + 32))"

text \<open>The string \<open>s\<close> is the string \<open>t\<close> in some letter case.\<close>

definition letter_case_variant :: "string \<Rightarrow> string \<Rightarrow> bool" where
  "letter_case_variant s t = list_all2 same_letter s t"

text \<open>No field of the row holds a line feed, so its CSV record is one physical line.\<close>

definition single_line :: "Build \<Rightarrow> bool" where
  "single_line b =
     (CHR 0x0A \<notin> set (branch b @ name b @ commit b
        @ (case status b of None \<Rightarrow> [] | Some s \<Rightarrow> s) @ url b))"

text \<open>The text that a CSV cell holds: \<open>None\<close> is written as the empty cell.\<close>

definition cell_text :: "string option \<Rightarrow> string" where
  "cell_text f = (case f of None \<Rightarrow> [] | Some s \<Rightarrow> s)"

text \<open>The five cells of the data row of a report row.\<close>

definition data_row :: "Build \<Rightarrow> string list" where
  "data_row b = [branch b, name b, commit b, cell_text (status b), url b]"

text \<open>
  A reader of CSV text by the standard rules, independent of the writer: a record is
  cells separated by commas and ended by CR LF; a cell is either plain text without comma,
  quote, CR and LF, or text enclosed in quotes, in which a quote is written twice and
  commas and line breaks stand for themselves. The reader keeps the cell and the record
  it is reading; it answers \<open>None\<close> on text that these rules do not produce, and on text
  whose last record is not ended.
\<close>

datatype reader_state =
  START_RECORD | START_FIELD | IN_FIELD | IN_QUOTED_FIELD | QUOTE_IN_QUOTED_FIELD | EAT_LF

fun csv_reader ::
  "reader_state \<Rightarrow> string \<Rightarrow> string list \<Rightarrow> string \<Rightarrow> string list list option" where
  "csv_reader st fld row [] = (if st = START_RECORD then Some [] else None)"
| "csv_reader st fld row (c # cs) =
     (if st = START_RECORD \<or> st = START_FIELD then
        (if c = dq then csv_reader IN_QUOTED_FIELD [] row cs
         else if c = CHR '','' then csv_reader START_FIELD [] (row @ [[]]) cs
         else if c = CHR 0x0D then csv_reader EAT_LF [] row cs
         else if c = CHR 0x0A then None
         else csv_reader IN_FIELD [c] row cs)
      else if st = IN_FIELD then
        (if c = dq then None
         else if c = CHR '','' then csv_reader START_FIELD [] (row @ [fld]) cs
         else if c = CHR 0x0D then csv_reader EAT_LF fld row cs
         else if c = CHR 0x0A then None
         else csv_reader IN_FIELD (fld @ [c]) row cs)
      else if st = IN_QUOTED_FIELD then
        (if c = dq then csv_reader QUOTE_IN_QUOTED_FIELD fld row cs
         else csv_reader IN_QUOTED_FIELD (fld @ [c]) row cs)
      else if st = QUOTE_IN_QUOTED_FIELD then
        (if c = dq then csv_reader IN_QUOTED_FIELD (fld @ [dq]) row cs
         else if c = CHR '','' then csv_reader START_FIELD [] (row @ [fld]) cs
         else if c = CHR 0x0D then csv_reader EAT_LF fld row cs
         else None)
      else
        (if c = CHR 0x0A then map_option ((#) (row @ [fld])) (csv_reader START_RECORD [] [] cs)
         else None))"

text \<open>The records of a CSV text, each the list of its cells.\<close>

definition read_csv :: "string \<Rightarrow> string list list option" where
  "read_csv content = csv_reader START_RECORD [] [] content"

text \<open>What the reader does at the comma or the carriage return that ends the cell
  \<open>fld\<close>.\<close>

definition field_end :: "string list \<Rightarrow> string \<Rightarrow> char \<Rightarrow> string \<Rightarrow> string list list option" where
  "field_end row fld c cs =
     (if c = CHR '','' then csv_reader START_FIELD [] (row @ [fld]) cs
      else csv_reader EAT_LF fld row cs)"

text \<open>The state of the world before the run: nothing sent, nothing printed.\<close>

definition initial_world :: world where
  "initial_world = \<lparr>sent = [], printed = []\<rparr>"

section \<open>Properties\<close>

subsection \<open>The failure classifier\<close>

lemma lower_char_same_letter:
  assumes "same_letter c d"
  shows "lower_char c = lower_char d"
proof -
  have up: "lower_char x = y"
    if "65 \<le> (of_char x :: nat)" "(of_char x :: nat) \<le> 90" "(of_char y :: nat) = of_char x + 32"
    for x y
  proof -
    have "char_of ((of_char x :: nat) + 32) = char_of (of_char y :: nat)"
      using that(3) by simp
    then show ?thesis
      using that(1,2) by (simp add: lower_char_def)
  qed
  have low: "lower_char y = y"
    if "65 \<le> (of_char x :: nat)" "(of_char x :: nat) \<le> 90" "(of_char y :: nat) = of_char x + 32"
    for x y
    using that by (simp add: lower_char_def)
  show ?thesis
    using assms up low unfolding same_letter_def by metis
qed

lemma lower_case_variant: "letter_case_variant s t \<Longrightarrow> lower s = lower t"
  unfolding letter_case_variant_def lower_def
  by (induction rule: list_all2_induct) (simp_all add: lower_char_same_letter)

lemma lower_build_successful: "lower ''Build Successful'' = ''build successful''"
  by code_simp

lemma lower_empty_timed_out:
  "lower '''' \<notin> set non_failing" "lower ''timed out'' \<notin> set non_failing"
  by code_simp+

lemma failed_builds_strings:
  "\<forall>b\<in>set BUILDS. status b \<noteq> None \<Longrightarrow>
     failed_builds BUILDS =
       Inr (filter (\<lambda>b. lower (the (status b)) \<notin> set non_failing) BUILDS)"
  by (induction BUILDS) (auto split: option.splits)

text \<open>
  The classifier where every status is a string: on every such list of rows it returns
  exactly the rows whose lowercased status is none of \<^verbatim>\<open>acquiring locks\<close>,
  \<^verbatim>\<open>building\<close>, \<^verbatim>\<open>build successful\<close>, \<^verbatim>\<open>preparing worker\<close>, in their
  order. A row whose status is \<^verbatim>\<open>Build Successful\<close> in any letter case is left out;
  a row whose status is the empty string or \<^verbatim>\<open>timed out\<close> is kept.
\<close>

theorem failed_builds_denylist:
  assumes "\<forall>b\<in>set BUILDS. status b \<noteq> None"
  shows "failed_builds BUILDS =
           Inr (filter (\<lambda>b. lower (the (status b)) \<notin>
                  {''acquiring locks'', ''building'', ''build successful'', ''preparing worker''})
                BUILDS)
         \<and> (\<forall>b\<in>set BUILDS. \<forall>s. status b = Some s \<and> letter_case_variant s ''Build Successful''
               \<longrightarrow> (\<forall>failed. failed_builds BUILDS = Inr failed \<longrightarrow> b \<notin> set failed))
         \<and> (\<forall>b\<in>set BUILDS. status b = Some '''' \<or> status b = Some ''timed out''
               \<longrightarrow> (\<exists>failed. failed_builds BUILDS = Inr failed \<and> b \<in> set failed))"
proof -
  have eq: "failed_builds BUILDS =
      Inr (filter (\<lambda>b. lower (the (status b)) \<notin> set non_failing) BUILDS)"
    using assms by (rule failed_builds_strings)
  have lits: "set non_failing =
      {''acquiring locks'', ''building'', ''build successful'', ''preparing worker''}"
    by (simp add: non_failing_def)
  have excl: "b \<notin> set failed"
    if "status b = Some s" "letter_case_variant s ''Build Successful''"
       "failed_builds BUILDS = Inr failed" for b s failed
  proof -
    have "lower s = ''build successful''"
      using lower_case_variant[OF that(2)] lower_build_successful by simp
    then have "lower (the (status b)) \<in> set non_failing"
      using that(1) by (simp add: non_failing_def)
    then show ?thesis
      using that(3) eq by auto
  qed
  have incl: "\<exists>failed. failed_builds BUILDS = Inr failed \<and> b \<in> set failed"
    if "b \<in> set BUILDS" "status b = Some '''' \<or> status b = Some ''timed out''" for b
  proof -
    have "lower (the (status b)) \<notin> set non_failing"
      using that(2) lower_empty_timed_out by auto
    then show ?thesis
      using that(1) eq by simp
  qed
  have first: "failed_builds BUILDS =
      Inr (filter (\<lambda>b. lower (the (status b)) \<notin>
             {''acquiring locks'', ''building'', ''build successful'', ''preparing worker''})
           BUILDS)"
    using eq unfolding lits .
  from first excl incl show ?thesis
    by blast
qed

theorem failed_builds_denylist_witness:
  "letter_case_variant ''bUILD successFUL'' ''Build Successful''
   \<and> failed_builds
       [\<lparr>name = ''B1'', url = ''u1'', commit = ''c'', branch = ''main'', status = Some ''bUILD successFUL''\<rparr>,
        \<lparr>name = ''B2'', url = ''u2'', commit = ''c'', branch = ''main'', status = Some ''timed out''\<rparr>,
        \<lparr>name = ''B3'', url = ''u3'', commit = ''c'', branch = ''main'', status = Some ''''\<rparr>,
        \<lparr>name = ''B4'', url = ''u4'', commit = ''c'', branch = ''main'', status = Some ''Building''\<rparr>]
     = Inr
       [\<lparr>name = ''B2'', url = ''u2'', commit = ''c'', branch = ''main'', status = Some ''timed out''\<rparr>,
        \<lparr>name = ''B3'', url = ''u3'', commit = ''c'', branch = ''main'', status = Some ''''\<rparr>]"
proof -
  have v: "letter_case_variant ''bUILD successFUL'' ''Build Successful''"
    by (simp add: letter_case_variant_def same_letter_def)
  have l: "lower ''bUILD successFUL'' = ''build successful''" "lower ''timed out'' = ''timed out''"
    "lower '''' = ''''" "lower ''Building'' = ''building''"
    by code_simp+
  show ?thesis
    using v l
      failed_builds_denylist[of
       "[\<lparr>name = ''B1'', url = ''u1'', commit = ''c'', branch = ''main'', status = Some ''bUILD successFUL''\<rparr>,
        \<lparr>name = ''B2'', url = ''u2'', commit = ''c'', branch = ''main'', status = Some ''timed out''\<rparr>,
        \<lparr>name = ''B3'', url = ''u3'', commit = ''c'', branch = ''main'', status = Some ''''\<rparr>,
        \<lparr>name = ''B4'', url = ''u4'', commit = ''c'', branch = ''main'', status = Some ''Building''\<rparr>]"]
    by simp
qed

subsection \<open>The builder filter\<close>

text \<open>
  C8. With no allow-list, or an empty one, the builder filter returns the roster as it
  is; with a non-empty allow-list it returns exactly the builders whose name is in the
  list, in roster order.
\<close>

theorem filter_builders_allow_list:
  "(bf = None \<or> bf = Some [] \<longrightarrow> filter_builders bf roster = roster) \<and>
   (\<forall>allow. bf = Some allow \<and> allow \<noteq> [] \<longrightarrow>
        filter_builders bf roster = filter (\<lambda>b. builder_name b \<in> set allow) roster)"
  by (auto simp: filter_builders_def)

theorem filter_builders_allow_list_witness:
  "filter_builders (Some [''B2'', ''B9''])
     [\<lparr>builderid = 1, builder_name = ''B1''\<rparr>, \<lparr>builderid = 2, builder_name = ''B2''\<rparr>]
     = [\<lparr>builderid = 2, builder_name = ''B2''\<rparr>]
   \<and> filter_builders None
     [\<lparr>builderid = 1, builder_name = ''B1''\<rparr>, \<lparr>builderid = 2, builder_name = ''B2''\<rparr>]
     = [\<lparr>builderid = 1, builder_name = ''B1''\<rparr>, \<lparr>builderid = 2, builder_name = ''B2''\<rparr>]
   \<and> filter_builders (Some [])
     [\<lparr>builderid = 1, builder_name = ''B1''\<rparr>, \<lparr>builderid = 2, builder_name = ''B2''\<rparr>]
     = [\<lparr>builderid = 1, builder_name = ''B1''\<rparr>, \<lparr>builderid = 2, builder_name = ''B2''\<rparr>]"
  using
    filter_builders_allow_list[of "Some [''B2'', ''B9'']"
     "[\<lparr>builderid = 1, builder_name = ''B1''\<rparr>, \<lparr>builderid = 2, builder_name = ''B2''\<rparr>]"]
    filter_builders_allow_list[of None
     "[\<lparr>builderid = 1, builder_name = ''B1''\<rparr>, \<lparr>builderid = 2, builder_name = ''B2''\<rparr>]"]
    filter_builders_allow_list[of "Some []"
     "[\<lparr>builderid = 1, builder_name = ''B1''\<rparr>, \<lparr>builderid = 2, builder_name = ''B2''\<rparr>]"]
  by simp

subsection \<open>The CSV projection\<close>

lemma csv_header_record:
  "csv_record csv_header = ''Branch,Build,Commit,Status,URL'' @ [CHR 0x0D, CHR 0x0A]"
  by (simp add: csv_record_def csv_header_def csv_field_def csv_special_def dq_def)

lemma writerow_foldl:
  "foldl (\<lambda>output b. writerow output (csv_fields b)) acc builds =
     acc @ concat (map (\<lambda>b. csv_record (csv_fields b)) builds)"
  by (induction builds arbitrary: acc) (simp_all add: writerow_def)

lemma builds_to_csv_concat:
  "builds_to_csv builds =
     ''Branch,Build,Commit,Status,URL'' @ [CHR 0x0D, CHR 0x0A]
       @ concat (map (\<lambda>b. csv_record (csv_fields b)) builds)"
  unfolding builds_to_csv_def writerow_foldl by (simp add: writerow_def csv_header_record)

lemma count_list_app: "count_list (xs @ ys) c = count_list xs c + count_list ys c"
  by (induction xs) auto

lemma count_csv_escape: "count_list (csv_escape s) (CHR 0x0A) = count_list s (CHR 0x0A)"
  by (induction s) (auto simp: csv_escape_def dq_def)

lemma count_csv_field:
  "count_list (csv_field f) (CHR 0x0A) = count_list (case f of None \<Rightarrow> [] | Some s \<Rightarrow> s) (CHR 0x0A)"
  by (cases f) (simp_all add: csv_field_def count_list_app count_csv_escape dq_def)

lemma csv_record_five:
  "csv_record [a, b, c, d, e] =
     csv_field a @ '','' @ csv_field b @ '','' @ csv_field c @ '','' @ csv_field d @ '','' @ csv_field e
       @ [CHR 0x0D, CHR 0x0A]"
  by (simp add: csv_record_def)

lemma count_csv_record:
  "single_line b \<Longrightarrow> count_list (csv_record (csv_fields b)) (CHR 0x0A) = 1"
  unfolding csv_fields_def csv_record_five single_line_def
  by (simp add: count_list_app count_csv_field count_list_0_iff split: option.splits)

lemma count_concat_records:
  "\<forall>b\<in>set builds. single_line b \<Longrightarrow>
     count_list (concat (map (\<lambda>b. csv_record (csv_fields b)) builds)) (CHR 0x0A) = length builds"
  by (induction builds) (simp_all add: count_list_app count_csv_record)

lemma in_field_plain:
  "\<not> list_ex csv_special s \<Longrightarrow>
     csv_reader IN_FIELD f row (s @ rest) = csv_reader IN_FIELD (f @ s) row rest"
  by (induction s arbitrary: f) (simp_all add: csv_special_def)

lemma in_field_end:
  "c = CHR '','' \<or> c = CHR 0x0D \<Longrightarrow> csv_reader IN_FIELD f row (c # cs) = field_end row f c cs"
  by (auto simp: field_end_def dq_def)

lemma start_end:
  "st = START_RECORD \<or> st = START_FIELD \<Longrightarrow> c = CHR '','' \<or> c = CHR 0x0D \<Longrightarrow>
     csv_reader st f row (c # cs) = field_end row [] c cs"
  by (auto simp: field_end_def dq_def)

lemma read_plain_field:
  assumes "st = START_RECORD \<or> st = START_FIELD" "c = CHR '','' \<or> c = CHR 0x0D"
    "\<not> list_ex csv_special s"
  shows "csv_reader st [] row (s @ c # cs) = field_end row s c cs"
proof (cases s)
  case Nil
  then show ?thesis using start_end[OF assms(1,2)] by simp
next
  case (Cons x xs)
  with assms(3) have x: "\<not> csv_special x" and xs: "\<not> list_ex csv_special xs"
    by simp_all
  from x assms(1) have "csv_reader st [] row ((x # xs) @ c # cs) = csv_reader IN_FIELD [x] row (xs @ c # cs)"
    by (auto simp: csv_special_def)
  also have "\<dots> = csv_reader IN_FIELD ([x] @ xs) row (c # cs)"
    using xs by (rule in_field_plain)
  also have "\<dots> = field_end row (x # xs) c cs"
    using in_field_end[OF assms(2)] by simp
  finally show ?thesis using Cons by simp
qed

lemma in_quoted_escape:
  "csv_reader IN_QUOTED_FIELD f row (csv_escape s @ rest) = csv_reader IN_QUOTED_FIELD (f @ s) row rest"
  by (induction s arbitrary: f) (simp_all add: csv_escape_def)

lemma read_quoted_field:
  assumes "st = START_RECORD \<or> st = START_FIELD" "c = CHR '','' \<or> c = CHR 0x0D"
  shows "csv_reader st [] row ([dq] @ csv_escape s @ [dq] @ c # cs) = field_end row s c cs"
proof -
  have "csv_reader st [] row ([dq] @ csv_escape s @ [dq] @ c # cs) =
      csv_reader IN_QUOTED_FIELD [] row (csv_escape s @ dq # c # cs)"
    using assms(1) by auto
  also have "\<dots> = csv_reader IN_QUOTED_FIELD s row (dq # c # cs)"
    using in_quoted_escape[of "[]" row s] by simp
  also have "\<dots> = field_end row s c cs"
    using assms(2) by (auto simp: field_end_def dq_def)
  finally show ?thesis .
qed

lemma read_csv_field:
  assumes "st = START_RECORD \<or> st = START_FIELD" "c = CHR '','' \<or> c = CHR 0x0D"
  shows "csv_reader st [] row (csv_field f @ c # cs) = field_end row (cell_text f) c cs"
proof (cases f)
  case None
  then show ?thesis
    using start_end[OF assms] by (simp add: csv_field_def cell_text_def)
next
  case (Some s)
  show ?thesis
  proof (cases "list_ex csv_special s")
    case True
    with Some read_quoted_field[OF assms, of row s cs] show ?thesis
      by (simp add: csv_field_def cell_text_def)
  next
    case False
    with Some read_plain_field[OF assms False, of row cs] show ?thesis
      by (simp add: csv_field_def cell_text_def)
  qed
qed

lemma read_csv_record:
  "csv_reader START_RECORD [] [] (csv_record [a, b, c, d, e] @ rest) =
     map_option ((#) [cell_text a, cell_text b, cell_text c, cell_text d, cell_text e])
       (csv_reader START_RECORD [] [] rest)"
proof -
  have "csv_reader START_RECORD [] [] (csv_record [a, b, c, d, e] @ rest) =
      csv_reader START_RECORD [] []
        (csv_field a @ CHR '','' # csv_field b @ CHR '','' # csv_field c @ CHR '','' # csv_field d
           @ CHR '','' # csv_field e @ CHR 0x0D # CHR 0x0A # rest)"
    by (simp add: csv_record_five)
  also have "\<dots> = csv_reader START_FIELD [] [cell_text a]
        (csv_field b @ CHR '','' # csv_field c @ CHR '','' # csv_field d
           @ CHR '','' # csv_field e @ CHR 0x0D # CHR 0x0A # rest)"
    by (subst read_csv_field) (simp_all add: field_end_def)
  also have "\<dots> = csv_reader START_FIELD [] [cell_text a, cell_text b]
        (csv_field c @ CHR '','' # csv_field d @ CHR '','' # csv_field e @ CHR 0x0D # CHR 0x0A # rest)"
    by (subst read_csv_field) (simp_all add: field_end_def)
  also have "\<dots> = csv_reader START_FIELD [] [cell_text a, cell_text b, cell_text c]
        (csv_field d @ CHR '','' # csv_field e @ CHR 0x0D # CHR 0x0A # rest)"
    by (subst read_csv_field) (simp_all add: field_end_def)
  also have "\<dots> = csv_reader START_FIELD [] [cell_text a, cell_text b, cell_text c, cell_text d]
        (csv_field e @ CHR 0x0D # CHR 0x0A # rest)"
    by (subst read_csv_field) (simp_all add: field_end_def)
  also have "\<dots> = csv_reader EAT_LF (cell_text e) [cell_text a, cell_text b, cell_text c, cell_text d]
        (CHR 0x0A # rest)"
    by (subst read_csv_field) (simp_all add: field_end_def)
  also have "\<dots> = map_option ((#) [cell_text a, cell_text b, cell_text c, cell_text d, cell_text e])
       (csv_reader START_RECORD [] [] rest)"
    by simp
  finally show ?thesis .
qed

lemma read_concat_records:
  "csv_reader START_RECORD [] [] (concat (map (\<lambda>b. csv_record (csv_fields b)) builds)) =
     Some (map data_row builds)"
proof (induction builds)
  case Nil
  show ?case by simp
next
  case (Cons b bs)
  have "csv_reader START_RECORD [] []
          (csv_record (csv_fields b) @ concat (map (\<lambda>b. csv_record (csv_fields b)) bs)) =
        map_option ((#) (data_row b))
          (csv_reader START_RECORD [] [] (concat (map (\<lambda>b. csv_record (csv_fields b)) bs)))"
    unfolding csv_fields_def read_csv_record by (simp add: data_row_def cell_text_def)
  with Cons.IH show ?case
    by simp
qed

lemma read_builds_to_csv:
  "read_csv (builds_to_csv builds) =
     Some ([''Branch'', ''Build'', ''Commit'', ''Status'', ''URL''] # map data_row builds)"
proof -
  have shape: "builds_to_csv builds =
      csv_record csv_header @ concat (map (\<lambda>b. csv_record (csv_fields b)) builds)"
    unfolding builds_to_csv_def writerow_foldl by (simp add: writerow_def)
  show ?thesis
    unfolding read_csv_def shape csv_header_def read_csv_record
    by (simp add: read_concat_records cell_text_def)
qed

text \<open>
  C7. The CSV projection starts with the header record
  \<^verbatim>\<open>Branch,Build,Commit,Status,URL\<close>. Read as CSV, for every list of rows, it is the
  header row followed by exactly one data row for each report row, in the order of the
  report rows, whose cells are the branch, name, commit, status and URL of that report
  row; this holds whatever the fields contain, commas, quotes and line breaks included.
  As text, it is the header record followed by the record of each row, the five fields
  separated by commas and ended by CR LF; when no field holds a line feed, the text has one
  line more than there are rows.
\<close>

theorem builds_to_csv_header_then_rows:
  "builds_to_csv builds =
     ''Branch,Build,Commit,Status,URL'' @ [CHR 0x0D, CHR 0x0A]
       @ concat (map (\<lambda>b. csv_record (csv_fields b)) builds)
   \<and> read_csv (builds_to_csv builds) =
       Some ([''Branch'', ''Build'', ''Commit'', ''Status'', ''URL'']
             # map (\<lambda>b. [branch b, name b, commit b, cell_text (status b), url b]) builds)
   \<and> (\<forall>b. csv_record (csv_fields b) =
          csv_field (Some (branch b)) @ '','' @ csv_field (Some (name b)) @ '','' @ csv_field (Some (commit b))
            @ '','' @ csv_field (status b) @ '','' @ csv_field (Some (url b)) @ [CHR 0x0D, CHR 0x0A])
   \<and> ((\<forall>b\<in>set builds. single_line b) \<longrightarrow>
         count_list (builds_to_csv builds) (CHR 0x0A) = Suc (length builds))"
proof (intro conjI allI impI)
  show "builds_to_csv builds =
     ''Branch,Build,Commit,Status,URL'' @ [CHR 0x0D, CHR 0x0A]
       @ concat (map (\<lambda>b. csv_record (csv_fields b)) builds)"
    by (rule builds_to_csv_concat)
next
  have "map data_row builds =
      map (\<lambda>b. [branch b, name b, commit b, cell_text (status b), url b]) builds"
    by (simp add: data_row_def)
  then show "read_csv (builds_to_csv builds) =
       Some ([''Branch'', ''Build'', ''Commit'', ''Status'', ''URL'']
             # map (\<lambda>b. [branch b, name b, commit b, cell_text (status b), url b]) builds)"
    using read_builds_to_csv[of builds] by simp
next
  fix b
  show "csv_record (csv_fields b) =
          csv_field (Some (branch b)) @ '','' @ csv_field (Some (name b)) @ '','' @ csv_field (Some (commit b))
            @ '','' @ csv_field (status b) @ '','' @ csv_field (Some (url b)) @ [CHR 0x0D, CHR 0x0A]"
    unfolding csv_fields_def csv_record_five ..
next
  assume "\<forall>b\<in>set builds. single_line b"
  then have "count_list (concat (map (\<lambda>b. csv_record (csv_fields b)) builds)) (CHR 0x0A) = length builds"
    by (rule count_concat_records)
  then show "count_list (builds_to_csv builds) (CHR 0x0A) = Suc (length builds)"
    unfolding builds_to_csv_concat by (simp add: count_list_app)
qed

theorem builds_to_csv_header_then_rows_witness:
  "builds_to_csv
     [\<lparr>name = ''build-A'', url = ''http://x/A'', commit = ''abc123'', branch = ''main'', status = Some ''success''\<rparr>,
      \<lparr>name = ''build-B'', url = ''http://x/B'', commit = ''def456'', branch = ''dev'', status = Some ''failed''\<rparr>]
   = ''Branch,Build,Commit,Status,URL'' @ [CHR 0x0D, CHR 0x0A]
     @ ''main,build-A,abc123,success,http://x/A'' @ [CHR 0x0D, CHR 0x0A]
     @ ''dev,build-B,def456,failed,http://x/B'' @ [CHR 0x0D, CHR 0x0A]
   \<and> count_list (builds_to_csv
     [\<lparr>name = ''build-A'', url = ''http://x/A'', commit = ''abc123'', branch = ''main'', status = Some ''success''\<rparr>,
      \<lparr>name = ''build-B'', url = ''http://x/B'', commit = ''def456'', branch = ''dev'', status = Some ''failed''\<rparr>])
      (CHR 0x0A) = 3
   \<and> read_csv (builds_to_csv
     [\<lparr>name = ''build,A'', url = ''http://x/A'', commit = ''abc123'', branch = ''main'',
       status = Some (''timed'' @ [CHR 0x0A] @ ''out'')\<rparr>,
      \<lparr>name = ''build-B'', url = ''http://x/B'', commit = ''def456'', branch = ''dev'', status = None\<rparr>])
     = Some [[''Branch'', ''Build'', ''Commit'', ''Status'', ''URL''],
             [''main'', ''build,A'', ''abc123'', ''timed'' @ [CHR 0x0A] @ ''out'', ''http://x/A''],
             [''dev'', ''build-B'', ''def456'', '''', ''http://x/B'']]"
proof -
  have f: "csv_field (Some ''main'') = ''main''" "csv_field (Some ''build-A'') = ''build-A''"
    "csv_field (Some ''abc123'') = ''abc123''" "csv_field (Some ''success'') = ''success''"
    "csv_field (Some ''http://x/A'') = ''http://x/A''"
    "csv_field (Some ''dev'') = ''dev''" "csv_field (Some ''build-B'') = ''build-B''"
    "csv_field (Some ''def456'') = ''def456''" "csv_field (Some ''failed'') = ''failed''"
    "csv_field (Some ''http://x/B'') = ''http://x/B''"
    by (simp_all add: csv_field_def csv_special_def dq_def)
  have plain: "builds_to_csv
     [\<lparr>name = ''build-A'', url = ''http://x/A'', commit = ''abc123'', branch = ''main'', status = Some ''success''\<rparr>,
      \<lparr>name = ''build-B'', url = ''http://x/B'', commit = ''def456'', branch = ''dev'', status = Some ''failed''\<rparr>]
   = ''Branch,Build,Commit,Status,URL'' @ [CHR 0x0D, CHR 0x0A]
     @ ''main,build-A,abc123,success,http://x/A'' @ [CHR 0x0D, CHR 0x0A]
     @ ''dev,build-B,def456,failed,http://x/B'' @ [CHR 0x0D, CHR 0x0A]
   \<and> count_list (builds_to_csv
     [\<lparr>name = ''build-A'', url = ''http://x/A'', commit = ''abc123'', branch = ''main'', status = Some ''success''\<rparr>,
      \<lparr>name = ''build-B'', url = ''http://x/B'', commit = ''def456'', branch = ''dev'', status = Some ''failed''\<rparr>])
      (CHR 0x0A) = 3"
    using builds_to_csv_header_then_rows[of
     "[\<lparr>name = ''build-A'', url = ''http://x/A'', commit = ''abc123'', branch = ''main'', status = Some ''success''\<rparr>,
      \<lparr>name = ''build-B'', url = ''http://x/B'', commit = ''def456'', branch = ''dev'', status = Some ''failed''\<rparr>]"]
    by (simp add: f single_line_def csv_fields_def csv_record_five)
  have broken: "read_csv (builds_to_csv
     [\<lparr>name = ''build,A'', url = ''http://x/A'', commit = ''abc123'', branch = ''main'',
       status = Some (''timed'' @ [CHR 0x0A] @ ''out'')\<rparr>,
      \<lparr>name = ''build-B'', url = ''http://x/B'', commit = ''def456'', branch = ''dev'', status = None\<rparr>])
     = Some [[''Branch'', ''Build'', ''Commit'', ''Status'', ''URL''],
             [''main'', ''build,A'', ''abc123'', ''timed'' @ [CHR 0x0A] @ ''out'', ''http://x/A''],
             [''dev'', ''build-B'', ''def456'', '''', ''http://x/B'']]"
    using builds_to_csv_header_then_rows[of
     "[\<lparr>name = ''build,A'', url = ''http://x/A'', commit = ''abc123'', branch = ''main'',
       status = Some (''timed'' @ [CHR 0x0A] @ ''out'')\<rparr>,
      \<lparr>name = ''build-B'', url = ''http://x/B'', commit = ''def456'', branch = ''dev'', status = None\<rparr>]",
      THEN conjunct2, THEN conjunct1]
    by (simp add: cell_text_def)
  from plain broken show ?thesis
    by blast
qed

text \<open>
  C10. On the empty list of rows the CSV projection is the header line alone, and the HTML
  projection is the empty string.
\<close>

theorem empty_report_projections:
  "builds_to_csv [] = ''Branch,Build,Commit,Status,URL'' @ [CHR 0x0D, CHR 0x0A]
   \<and> builds_to_html_table [] = []"
  by (simp add: builds_to_csv_def writerow_def csv_header_record builds_to_html_table_def
      html_parts_def group_by_branch_def sorted_branches_def)

subsection \<open>The build joiner\<close>

lemma find_append_case:
  "find P (xs @ ys) = (case find P xs of None \<Rightarrow> find P ys | Some x \<Rightarrow> Some x)"
  by (induction xs) auto

lemma fold_upd_find:
  "fold (\<lambda>b m. m(build_builderid b \<mapsto> b)) builds m0 i =
     (case find (\<lambda>d. build_builderid d = i) (rev builds) of None \<Rightarrow> m0 i | Some d \<Rightarrow> Some d)"
  by (induction builds arbitrary: m0) (auto simp: find_append_case split: option.splits)

lemma build_map_find:
  "build_map builds i = find (\<lambda>d. build_builderid d = i) (rev builds)"
  by (simp add: build_map_def fold_upd_find split: option.splits)

lemma find_Some_member: "find P xs = Some x \<Longrightarrow> x \<in> set xs \<and> P x"
  by (induction xs) (auto split: if_splits)

lemma build_map_Some:
  "build_map builds i = Some d \<Longrightarrow> d \<in> set builds \<and> build_builderid d = i"
  unfolding build_map_find using find_Some_member[of _ "rev builds" d] by auto

lemma build_map_None:
  "build_map builds i = None \<longleftrightarrow> (\<forall>d\<in>set builds. build_builderid d \<noteq> i)"
  unfolding build_map_find by (auto simp: find_None_iff)

lemma join_foldl:
  "foldl (join_step bm br revision base) acc builders =
     acc @ concat (map (\<lambda>b. case bm (builderid b) of None \<Rightarrow> []
                              | Some d \<Rightarrow> [make_build br revision base b d]) builders)"
  by (induction builders arbitrary: acc) (simp_all add: join_step_def split: option.splits)

lemma join_concat:
  "join_builders_with_change builders builds br revision base =
     concat (map (\<lambda>b. case build_map builds (builderid b) of None \<Rightarrow> []
                       | Some d \<Rightarrow> [make_build br revision base b d]) builders)"
  by (simp add: join_builders_with_change_def join_foldl)

lemma join_map_filter:
  "join_builders_with_change builders builds br revision base =
     map (\<lambda>b. make_build br revision base b (the (build_map builds (builderid b))))
       (filter (\<lambda>b. build_map builds (builderid b) \<noteq> None) builders)"
  unfolding join_concat by (induction builders) (auto split: option.splits)



lemma join_single:
  "join_builders_with_change [b] builds br revision base =
     (case build_map builds (builderid b) of None \<Rightarrow> [] | Some d \<Rightarrow> [make_build br revision base b d])"
  by (simp add: join_concat)

lemma join_concat_singles:
  "join_builders_with_change builders builds br revision base =
     concat (map (\<lambda>b. join_builders_with_change [b] builds br revision base) builders)"
  unfolding join_single by (rule join_concat)

lemma join_single_nonempty_iff:
  "join_builders_with_change [b] builds br revision base \<noteq> [] \<longleftrightarrow>
     (\<exists>d\<in>set builds. build_builderid d = builderid b)"
  using build_map_None[of builds "builderid b"]
  by (auto simp: join_single split: option.splits)

lemma join_row_origin:
  "row \<in> set (join_builders_with_change builders builds br revision base) \<Longrightarrow>
     \<exists>b\<in>set builders. \<exists>d\<in>set builds.
        build_builderid d = builderid b \<and> row = make_build br revision base b d"
proof -
  assume "row \<in> set (join_builders_with_change builders builds br revision base)"
  then obtain b where b: "b \<in> set builders"
    and r: "row \<in> set (case build_map builds (builderid b) of None \<Rightarrow> []
                         | Some d \<Rightarrow> [make_build br revision base b d])"
    unfolding join_concat by auto
  from r obtain d where d: "build_map builds (builderid b) = Some d"
    and row: "row = make_build br revision base b d"
    by (cases "build_map builds (builderid b)") auto
  from build_map_Some[OF d] b row show ?thesis
    by blast
qed

lemma join_row_present:
  assumes "b \<in> set builders" "\<exists>d\<in>set builds. build_builderid d = builderid b"
  shows "\<exists>d\<in>set builds. build_builderid d = builderid b \<and>
           make_build br revision base b d \<in> set (join_builders_with_change builders builds br revision base)"
proof -
  from assms(2) obtain d where d: "build_map builds (builderid b) = Some d"
    using build_map_None[of builds "builderid b"] by fastforce
  then have "make_build br revision base b d \<in> set (join_builders_with_change builders builds br revision base)"
    unfolding join_concat using assms(1) by force
  with build_map_Some[OF d] show ?thesis by blast
qed

text \<open>
  C2. The joiner is a total function: it raises nothing, whatever is unmatched. The rows
  are the rows of the builders taken one by one; a builder yields a row if and only if
  some build record carries its id; every row is built from a builder of the roster and a
  build record of the list with the same id, so a builder without a record and a record
  without a builder yield nothing; and a row comes out if and only if some record's id is
  some builder's id.
\<close>

theorem join_row_iff_match:
  "(\<forall>b. join_builders_with_change [b] builds br revision base \<noteq> [] \<longleftrightarrow>
          (\<exists>d\<in>set builds. build_builderid d = builderid b))
   \<and> join_builders_with_change builders builds br revision base =
        concat (map (\<lambda>b. join_builders_with_change [b] builds br revision base) builders)
   \<and> (\<forall>row\<in>set (join_builders_with_change builders builds br revision base).
          \<exists>b\<in>set builders. \<exists>d\<in>set builds.
             build_builderid d = builderid b \<and> row = make_build br revision base b d)
   \<and> (\<forall>b\<in>set builders. (\<exists>d\<in>set builds. build_builderid d = builderid b) \<longrightarrow>
          (\<exists>d\<in>set builds. build_builderid d = builderid b \<and>
             make_build br revision base b d \<in> set (join_builders_with_change builders builds br revision base)))
   \<and> (join_builders_with_change builders builds br revision base \<noteq> [] \<longleftrightarrow>
          (\<exists>b\<in>set builders. \<exists>d\<in>set builds. build_builderid d = builderid b))"
proof (intro conjI allI ballI impI)
  fix b
  show "join_builders_with_change [b] builds br revision base \<noteq> [] \<longleftrightarrow>
          (\<exists>d\<in>set builds. build_builderid d = builderid b)"
    by (rule join_single_nonempty_iff)
next
  show "join_builders_with_change builders builds br revision base =
        concat (map (\<lambda>b. join_builders_with_change [b] builds br revision base) builders)"
    by (rule join_concat_singles)
next
  fix row
  assume "row \<in> set (join_builders_with_change builders builds br revision base)"
  then show "\<exists>b\<in>set builders. \<exists>d\<in>set builds.
             build_builderid d = builderid b \<and> row = make_build br revision base b d"
    by (rule join_row_origin)
next
  fix b
  assume "b \<in> set builders" "\<exists>d\<in>set builds. build_builderid d = builderid b"
  then show "\<exists>d\<in>set builds. build_builderid d = builderid b \<and>
             make_build br revision base b d \<in> set (join_builders_with_change builders builds br revision base)"
    by (rule join_row_present)
next
  show "join_builders_with_change builders builds br revision base \<noteq> [] \<longleftrightarrow>
          (\<exists>b\<in>set builders. \<exists>d\<in>set builds. build_builderid d = builderid b)"
  proof
    assume "join_builders_with_change builders builds br revision base \<noteq> []"
    then obtain row where "row \<in> set (join_builders_with_change builders builds br revision base)"
      by (cases "join_builders_with_change builders builds br revision base") auto
    from join_row_origin[OF this] show "\<exists>b\<in>set builders. \<exists>d\<in>set builds. build_builderid d = builderid b"
      by blast
  next
    assume "\<exists>b\<in>set builders. \<exists>d\<in>set builds. build_builderid d = builderid b"
    then obtain b where "b \<in> set builders" "\<exists>d\<in>set builds. build_builderid d = builderid b"
      by blast
    from join_row_present[OF this, of br revision base]
    show "join_builders_with_change builders builds br revision base \<noteq> []"
      by fastforce
  qed
qed

lemma url_1_42: "detail_url ''http://bb/'' \<lparr>builderid = 1, builder_name = ''B1''\<rparr>
     \<lparr>build_builderid = 1, number = Some 42, state_string = s\<rparr> = ''http://bb/#/builders/1/builds/42''"
  by code_simp

theorem join_row_iff_match_witness:
  "join_builders_with_change
     [\<lparr>builderid = 1, builder_name = ''B1''\<rparr>, \<lparr>builderid = 2, builder_name = ''B2''\<rparr>]
     [\<lparr>build_builderid = 1, number = Some 42, state_string = Some ''success''\<rparr>,
      \<lparr>build_builderid = 3, number = Some 43, state_string = Some ''failed''\<rparr>]
     ''main'' ''abc'' ''http://bb/''
   = [\<lparr>name = ''B1'', url = ''http://bb/#/builders/1/builds/42'', commit = ''abc'',
        branch = ''main'', status = Some ''success''\<rparr>]"
  using join_row_iff_match[of
     "[\<lparr>build_builderid = 1, number = Some 42, state_string = Some ''success''\<rparr>,
      \<lparr>build_builderid = 3, number = Some 43, state_string = Some ''failed''\<rparr>]"
     "''main''" "''abc''" "''http://bb/''"
     "[\<lparr>builderid = 1, builder_name = ''B1''\<rparr>, \<lparr>builderid = 2, builder_name = ''B2''\<rparr>]"]
  by (simp add: join_concat build_map_def make_build_def url_1_42)

lemma build_map_last:
  assumes "builds = pre @ d # post" "\<forall>e\<in>set post. build_builderid e \<noteq> build_builderid d"
  shows "build_map builds (build_builderid d) = Some d"
proof -
  have "find (\<lambda>e. build_builderid e = build_builderid d) (rev post) = None"
    using assms(2) by (simp add: find_None_iff)
  then show ?thesis
    unfolding build_map_find assms(1) by (simp add: find_append_case)
qed

text \<open>
  C5. The index of the joiner maps an id to the last build record of the list that carries
  it: the first match of the reversed list, that is, the record after which no record has
  the same id. With one builder of id 1 and two records of id 1, the second with state
  string \<^verbatim>\<open>X\<close>, the joiner emits one row, of status \<^verbatim>\<open>X\<close>.
\<close>

theorem build_map_last_write_wins:
  "build_map builds i = find (\<lambda>d. build_builderid d = i) (rev builds)
   \<and> (\<forall>pre d post. builds = pre @ d # post \<and> (\<forall>e\<in>set post. build_builderid e \<noteq> build_builderid d)
         \<longrightarrow> build_map builds (build_builderid d) = Some d)
   \<and> (\<forall>nm (d1::build_data) (d2::build_data). build_builderid d1 = 1 \<and> build_builderid d2 = 1 \<and> state_string d2 = Some ''X''
         \<longrightarrow> map status (join_builders_with_change [\<lparr>builderid = 1, builder_name = nm\<rparr>] [d1, d2]
                 br revision base) = [Some ''X''])"
proof (intro conjI allI impI)
  show "build_map builds i = find (\<lambda>d. build_builderid d = i) (rev builds)"
    by (rule build_map_find)
next
  fix pre d post
  assume "builds = pre @ d # post \<and> (\<forall>e\<in>set post. build_builderid e \<noteq> build_builderid d)"
  then show "build_map builds (build_builderid d) = Some d"
    using build_map_last by blast
next
  fix nm and d1 d2 :: build_data
  assume "build_builderid d1 = 1 \<and> build_builderid d2 = 1 \<and> state_string d2 = Some ''X''"
  then show "map status (join_builders_with_change [\<lparr>builderid = 1, builder_name = nm\<rparr>] [d1, d2]
                 br revision base) = [Some ''X'']"
    by (simp add: join_single build_map_find make_build_def)
qed

theorem build_map_last_write_wins_witness:
  "build_map [\<lparr>build_builderid = 1, number = Some 7, state_string = Some ''failed''\<rparr>,
              \<lparr>build_builderid = 2, number = Some 8, state_string = Some ''building''\<rparr>,
              \<lparr>build_builderid = 1, number = Some 9, state_string = Some ''X''\<rparr>] 1
     = Some \<lparr>build_builderid = 1, number = Some 9, state_string = Some ''X''\<rparr>
   \<and> map status (join_builders_with_change [\<lparr>builderid = 1, builder_name = ''B1''\<rparr>]
        [\<lparr>build_builderid = 1, number = Some 7, state_string = Some ''failed''\<rparr>,
         \<lparr>build_builderid = 1, number = Some 9, state_string = Some ''X''\<rparr>] ''main'' ''abc'' ''http://bb/'')
     = [Some ''X'']"
  using build_map_last_write_wins[of
     "[\<lparr>build_builderid = 1, number = Some 7, state_string = Some ''failed''\<rparr>,
       \<lparr>build_builderid = 2, number = Some 8, state_string = Some ''building''\<rparr>,
       \<lparr>build_builderid = 1, number = Some 9, state_string = Some ''X''\<rparr>]" 1
     "''main''" "''abc''" "''http://bb/''"]
  by simp

lemma join_length_filter:
  "length (join_builders_with_change builders builds br revision base) =
     length (filter (\<lambda>b. \<exists>d\<in>set builds. build_builderid d = builderid b) builders)"
proof -
  have "(build_map builds (builderid b) \<noteq> None) = (\<exists>d\<in>set builds. build_builderid d = builderid b)" for b :: builder
    using build_map_None[of builds "builderid b"] by auto
  then show ?thesis
    unfolding join_map_filter by simp
qed

lemma join_names:
  "map name (join_builders_with_change builders builds br revision base) =
     map builder_name (filter (\<lambda>b. build_map builds (builderid b) \<noteq> None) builders)"
  unfolding join_map_filter by (simp add: make_build_def comp_def)

lemma join_all2:
  "list_all2 (\<lambda>row b. \<exists>d\<in>set builds. build_builderid d = builderid b \<and>
                 row = make_build br revision base b d)
     (join_builders_with_change builders builds br revision base)
     (filter (\<lambda>b. \<exists>d\<in>set builds. build_builderid d = builderid b) builders)"
proof (induction builders)
  case Nil
  show ?case by (simp add: join_concat)
next
  case (Cons b bs)
  have split: "join_builders_with_change (b # bs) builds br revision base =
      join_builders_with_change [b] builds br revision base @ join_builders_with_change bs builds br revision base"
    by (simp add: join_concat)
  show ?case
  proof (cases "build_map builds (builderid b)")
    case None
    then have "\<not> (\<exists>d\<in>set builds. build_builderid d = builderid b)"
      using build_map_None[of builds "builderid b"] by simp
    with None Cons.IH show ?thesis
      unfolding split by (simp add: join_single)
  next
    case (Some d)
    from build_map_Some[OF Some] Some Cons.IH show ?thesis
      unfolding split by (auto simp: join_single)
  qed
qed

text \<open>
  C9. The joiner emits at most one row for a builder, however many build records carry its
  id, so it emits at most as many rows as there are builders; the rows stand in the order
  of their builders in the roster: they are, one for one and in order, the rows of the
  builders that have a record.
\<close>

theorem join_one_row_per_builder_in_order:
  "length (join_builders_with_change builders builds br revision base) \<le> length builders
   \<and> (\<forall>b. length (join_builders_with_change [b] builds br revision base) \<le> 1)
   \<and> join_builders_with_change builders builds br revision base =
        concat (map (\<lambda>b. join_builders_with_change [b] builds br revision base) builders)
   \<and> subseq (map name (join_builders_with_change builders builds br revision base))
        (map builder_name builders)
   \<and> list_all2 (\<lambda>row b. \<exists>d\<in>set builds. build_builderid d = builderid b \<and>
                   row = make_build br revision base b d)
        (join_builders_with_change builders builds br revision base)
        (filter (\<lambda>b. \<exists>d\<in>set builds. build_builderid d = builderid b) builders)"
proof (intro conjI allI)
  show "length (join_builders_with_change builders builds br revision base) \<le> length builders"
    unfolding join_length_filter by (rule length_filter_le)
next
  fix b
  show "length (join_builders_with_change [b] builds br revision base) \<le> 1"
    by (simp add: join_single split: option.splits)
next
  show "join_builders_with_change builders builds br revision base =
        concat (map (\<lambda>b. join_builders_with_change [b] builds br revision base) builders)"
    by (rule join_concat_singles)
next
  show "subseq (map name (join_builders_with_change builders builds br revision base))
        (map builder_name builders)"
    unfolding join_names by (intro subseq_map subseq_filter_left)
next
  show "list_all2 (\<lambda>row b. \<exists>d\<in>set builds. build_builderid d = builderid b \<and>
                   row = make_build br revision base b d)
        (join_builders_with_change builders builds br revision base)
        (filter (\<lambda>b. \<exists>d\<in>set builds. build_builderid d = builderid b) builders)"
    by (rule join_all2)
qed

theorem join_one_row_per_builder_in_order_witness:
  "map name (join_builders_with_change
     [\<lparr>builderid = 2, builder_name = ''B2''\<rparr>, \<lparr>builderid = 5, builder_name = ''B5''\<rparr>,
      \<lparr>builderid = 1, builder_name = ''B1''\<rparr>]
     [\<lparr>build_builderid = 1, number = Some 7, state_string = Some ''failed''\<rparr>,
      \<lparr>build_builderid = 2, number = Some 8, state_string = Some ''building''\<rparr>,
      \<lparr>build_builderid = 1, number = Some 9, state_string = Some ''X''\<rparr>]
     ''main'' ''abc'' ''http://bb/'') = [''B2'', ''B1'']"
  using join_one_row_per_builder_in_order[of
     "[\<lparr>builderid = 2, builder_name = ''B2''\<rparr>, \<lparr>builderid = 5, builder_name = ''B5''\<rparr>,
      \<lparr>builderid = 1, builder_name = ''B1''\<rparr>]"
     "[\<lparr>build_builderid = 1, number = Some 7, state_string = Some ''failed''\<rparr>,
      \<lparr>build_builderid = 2, number = Some 8, state_string = Some ''building''\<rparr>,
      \<lparr>build_builderid = 1, number = Some 9, state_string = Some ''X''\<rparr>]"
     "''main''" "''abc''" "''http://bb/''"]
  by (simp add: join_names build_map_find)

subsection \<open>The joiner and the classifier on an absent state string\<close>

lemma failed_builds_None:
  "\<exists>b\<in>set BUILDS. status b = None \<Longrightarrow> failed_builds BUILDS = Inl AttributeError"
proof (induction BUILDS)
  case Nil
  then show ?case by simp
next
  case (Cons b bs)
  show ?case
  proof (cases "status b")
    case None
    then show ?thesis by simp
  next
    case (Some s)
    with Cons.prems have "\<exists>b\<in>set bs. status b = None" by auto
    from Cons.IH[OF this] Some show ?thesis by simp
  qed
qed

text \<open>
  C4. For a build record without a state string the joiner emits the row of the matching
  builder, with the status \<open>None\<close>; the classifier, given that row, raises
  \<^verbatim>\<open>AttributeError\<close> instead of classifying it. Here on the builder of id 1 and
  one record of id 1, number 42 and no state string.
\<close>

theorem absent_state_string_breaks_classifier:
  "join_builders_with_change [\<lparr>builderid = 1, builder_name = ''B1''\<rparr>]
      [\<lparr>build_builderid = 1, number = Some 42, state_string = None\<rparr>] ''main'' ''abc'' ''http://bb/''
    = [\<lparr>name = ''B1'', url = ''http://bb/#/builders/1/builds/42'', commit = ''abc'',
         branch = ''main'', status = None\<rparr>]
   \<and> failed_builds
       (join_builders_with_change [\<lparr>builderid = 1, builder_name = ''B1''\<rparr>]
          [\<lparr>build_builderid = 1, number = Some 42, state_string = None\<rparr>] ''main'' ''abc'' ''http://bb/'')
     = Inl AttributeError"
  by (simp add: join_single build_map_find make_build_def url_1_42)

lemma url_2_43: "detail_url ''http://bb/'' \<lparr>builderid = 2, builder_name = ''B2''\<rparr>
     \<lparr>build_builderid = 2, number = Some 43, state_string = s\<rparr> = ''http://bb/#/builders/2/builds/43''"
  by code_simp

text \<open>
  C1. On a list of rows one of which has no status the classifier returns no list at all:
  it raises \<^verbatim>\<open>AttributeError\<close>, so the row of status \<^verbatim>\<open>timed out\<close> that
  stands before it is not returned either. Here on the two rows that the joiner emits for
  the builders of ids 1 and 2 and the records of id 1, with state string
  \<^verbatim>\<open>timed out\<close>, and of id 2, with no state string.
\<close>

theorem classifier_raises_beside_absent_status:
  "join_builders_with_change
      [\<lparr>builderid = 1, builder_name = ''B1''\<rparr>, \<lparr>builderid = 2, builder_name = ''B2''\<rparr>]
      [\<lparr>build_builderid = 1, number = Some 42, state_string = Some ''timed out''\<rparr>,
       \<lparr>build_builderid = 2, number = Some 43, state_string = None\<rparr>] ''main'' ''abc'' ''http://bb/''
    = [\<lparr>name = ''B1'', url = ''http://bb/#/builders/1/builds/42'', commit = ''abc'',
         branch = ''main'', status = Some ''timed out''\<rparr>,
       \<lparr>name = ''B2'', url = ''http://bb/#/builders/2/builds/43'', commit = ''abc'',
         branch = ''main'', status = None\<rparr>]
   \<and> failed_builds
       [\<lparr>name = ''B1'', url = ''http://bb/#/builders/1/builds/42'', commit = ''abc'',
         branch = ''main'', status = Some ''timed out''\<rparr>,
        \<lparr>name = ''B2'', url = ''http://bb/#/builders/2/builds/43'', commit = ''abc'',
         branch = ''main'', status = None\<rparr>]
     = Inl AttributeError"
  by (simp add: join_concat build_map_find make_build_def url_1_42 url_2_43)

subsection \<open>The top level\<close>

text \<open>
  C3. When the classifier returns a list of failures, the run ends normally. If the list is
  empty, no mail-send call is made and the one line printed is the success message. If
  it is not empty, exactly one mail-send call is made and nothing is printed: the HTML
  projection of the failures is the body of the message and their CSV projection is the
  payload of the attachment \<^verbatim>\<open>builds_report.csv\<close>.
\<close>

theorem main_mail_iff_failures:
  assumes "failed_builds (collect_builds (buildbot_url env) config
              (filter_builders (builder_filter config) roster) latest_changes) = Inr failed"
  shows "\<exists>w. main env config roster latest_changes initial_world = Inr w
           \<and> (failed = [] \<longrightarrow>
                 sent w = [] \<and> printed w = [''Grab a coffee and enjoy a bug free world!''])
           \<and> (failed \<noteq> [] \<longrightarrow>
                 printed w = [] \<and>
                 sent w = [\<lparr>mail_from = sender env, mail_to = recipient env, mail_subject = subject env,
                            mail_html = builds_to_html_table failed,
                            attachment_filename = ''builds_report.csv'',
                            attachment_payload = builds_to_csv failed,
                            relay = smtp_relay env, port = smtp_port env\<rparr>])"
  using assms
  by (cases "failed = []")
     (simp_all add: main_def report_def Let_def send_email_with_csv_def print_def initial_world_def)


theorem main_mail_iff_failures_witness:
  "main \<lparr>subject = ''Report'', sender = ''a@x'', recipient = ''b@x'', buildbot_url = ''http://bb/'',
          smtp_relay = ''relay'', smtp_port = 465\<rparr>
        \<lparr>branches = [''main''], builder_filter = None\<rparr>
        [\<lparr>builderid = 1, builder_name = ''B1''\<rparr>]
        (\<lambda>br. [\<lparr>sourcestamp_branch = ''main'', sourcestamp_revision = ''abc'',
                 change_builds = [\<lparr>build_builderid = 1, number = Some 42, state_string = Some ''failed''\<rparr>]\<rparr>])
        initial_world
     = Inr \<lparr>sent = [\<lparr>mail_from = ''a@x'', mail_to = ''b@x'', mail_subject = ''Report'',
                      mail_html = builds_to_html_table
                        [\<lparr>name = ''B1'', url = ''http://bb/#/builders/1/builds/42'', commit = ''abc'',
                          branch = ''main'', status = Some ''failed''\<rparr>],
                      attachment_filename = ''builds_report.csv'',
                      attachment_payload = builds_to_csv
                        [\<lparr>name = ''B1'', url = ''http://bb/#/builders/1/builds/42'', commit = ''abc'',
                          branch = ''main'', status = Some ''failed''\<rparr>],
                      relay = ''relay'', port = 465\<rparr>],
            printed = []\<rparr>
   \<and> main \<lparr>subject = ''Report'', sender = ''a@x'', recipient = ''b@x'', buildbot_url = ''http://bb/'',
          smtp_relay = ''relay'', smtp_port = 465\<rparr>
        \<lparr>branches = [''main''], builder_filter = None\<rparr>
        [\<lparr>builderid = 1, builder_name = ''B1''\<rparr>]
        (\<lambda>br. [\<lparr>sourcestamp_branch = ''main'', sourcestamp_revision = ''abc'',
                 change_builds = [\<lparr>build_builderid = 1, number = Some 42, state_string = Some ''Build Successful''\<rparr>]\<rparr>])
        initial_world
     = Inr \<lparr>sent = [], printed = [''Grab a coffee and enjoy a bug free world!'']\<rparr>"
proof -
  let ?env = "\<lparr>subject = ''Report'', sender = ''a@x'', recipient = ''b@x'', buildbot_url = ''http://bb/'',
          smtp_relay = ''relay'', smtp_port = 465\<rparr>"
  let ?config = "\<lparr>branches = [''main''], builder_filter = None\<rparr>"
  let ?roster = "[\<lparr>builderid = 1, builder_name = ''B1''\<rparr>]"
  let ?red = "\<lambda>br :: string. [\<lparr>sourcestamp_branch = ''main'', sourcestamp_revision = ''abc'',
                 change_builds = [\<lparr>build_builderid = 1, number = Some 42, state_string = Some ''failed''\<rparr>]\<rparr>]"
  let ?green = "\<lambda>br :: string. [\<lparr>sourcestamp_branch = ''main'', sourcestamp_revision = ''abc'',
                 change_builds = [\<lparr>build_builderid = 1, number = Some 42, state_string = Some ''Build Successful''\<rparr>]\<rparr>]"
  have l: "lower ''failed'' = ''failed''"
    by code_simp
  have red: "failed_builds (collect_builds (buildbot_url ?env) ?config
              (filter_builders (builder_filter ?config) ?roster) ?red)
      = Inr [\<lparr>name = ''B1'', url = ''http://bb/#/builders/1/builds/42'', commit = ''abc'',
                          branch = ''main'', status = Some ''failed''\<rparr>]"
    by (simp add: collect_builds_def collect_step_def filter_builders_def join_single build_map_find
        make_build_def url_1_42 l non_failing_def)
  have green: "failed_builds (collect_builds (buildbot_url ?env) ?config
              (filter_builders (builder_filter ?config) ?roster) ?green) = Inr []"
    by (simp add: collect_builds_def collect_step_def filter_builders_def join_single build_map_find
        make_build_def url_1_42 lower_build_successful non_failing_def)
  from main_mail_iff_failures[OF red] main_mail_iff_failures[OF green]
  show ?thesis
    by auto
qed

subsection \<open>The HTML projection\<close>

lemma grouped_append_keys:
  "fst ` set (grouped_append g b) = insert (branch b) (fst ` set g)"
  by (induction g b rule: grouped_append.induct) auto

lemma grouped_append_distinct:
  "distinct (map fst g) \<Longrightarrow> distinct (map fst (grouped_append g b))"
proof (induction g b rule: grouped_append.induct)
  case (1 b)
  then show ?case by simp
next
  case (2 k vs g b)
  then show ?case
    using grouped_append_keys[of g b] by auto
qed

lemma grouped_append_get:
  "grouped_get (grouped_append g b) k =
     (if k = branch b then grouped_get g k @ [b] else grouped_get g k)"
  by (induction g b rule: grouped_append.induct) (auto simp: grouped_get_def)

lemma foldl_grouped_keys:
  "fst ` set (foldl grouped_append g bs) = fst ` set g \<union> branch ` set bs"
  by (induction bs arbitrary: g) (simp_all add: grouped_append_keys)

lemma foldl_grouped_distinct:
  "distinct (map fst g) \<Longrightarrow> distinct (map fst (foldl grouped_append g bs))"
  by (induction bs arbitrary: g) (simp_all add: grouped_append_distinct)

lemma foldl_grouped_get:
  "grouped_get (foldl grouped_append g bs) k = grouped_get g k @ filter (\<lambda>b. branch b = k) bs"
  by (induction bs arbitrary: g) (auto simp: grouped_append_get)

lemma group_by_branch_get:
  "grouped_get (group_by_branch builds) k = filter (\<lambda>b. branch b = k) builds"
  by (simp add: group_by_branch_def foldl_grouped_get) (simp add: grouped_get_def)

lemma sorted_branches_set:
  "set (sorted_branches (group_by_branch builds)) = branch ` set builds"
  by (simp add: sorted_branches_def group_by_branch_def foldl_grouped_keys)

lemma sorted_branches_distinct:
  "distinct (sorted_branches (group_by_branch builds))"
  by (simp add: sorted_branches_def group_by_branch_def foldl_grouped_distinct)

lemma sorted_branches_descending:
  "sorted_wrt (\<lambda>x y. y < x) (sorted_branches (group_by_branch builds))"
proof -
  have "sorted_wrt (<) (sort (map fst (group_by_branch builds)))"
    using foldl_grouped_distinct[of "[]" builds]
    by (simp add: strict_sorted_iff group_by_branch_def)
  then show ?thesis
    by (simp add: sorted_branches_def sorted_wrt_rev)
qed

lemma foldl_parts:
  "foldl (\<lambda>parts br. parts @ f br) acc brs = acc @ concat (map f brs)"
  by (induction brs arbitrary: acc) simp_all

lemma html_parts_concat:
  "html_parts builds =
     concat (map (\<lambda>br. branch_parts br (filter (\<lambda>b. branch b = br) builds))
               (sorted_branches (group_by_branch builds)))"
  by (simp add: html_parts_def Let_def foldl_parts group_by_branch_get)

lemma dev_less_main: "''dev'' < ''main''"
  by simp

lemma descending_unique:
  assumes "sorted_wrt (\<lambda>x y. y < x) xs" "sorted_wrt (\<lambda>x y. y < x) ys" "set xs = set ys"
  shows "xs = (ys :: string list)"
proof -
  have "sorted_wrt (<) (rev xs)" "sorted_wrt (<) (rev ys)"
    using assms(1,2) by (simp_all add: sorted_wrt_rev)
  then have "sorted (rev xs)" "distinct (rev xs)" "sorted (rev ys)" "distinct (rev ys)"
    unfolding strict_sorted_iff by simp_all
  moreover have "set (rev xs) = set (rev ys)"
    using assms(3) by simp
  ultimately have "rev xs = rev ys"
    by (rule sorted_distinct_set_unique)
  then show ?thesis by simp
qed

lemma main_dev_order:
  assumes "branch ` set builds = {''main'', ''dev''}"
  shows "sorted_branches (group_by_branch builds) = [''main'', ''dev'']"
proof (rule descending_unique)
  show "sorted_wrt (\<lambda>x y. y < x) (sorted_branches (group_by_branch builds))"
    by (rule sorted_branches_descending)
  show "sorted_wrt (\<lambda>x y. y < x) [''main'', ''dev'']"
    using dev_less_main by simp
  show "set (sorted_branches (group_by_branch builds)) = set [''main'', ''dev'']"
    using assms by (simp add: sorted_branches_set)
qed

lemma lower_A_b: "lower ''A'' = ''a''" "lower ''b'' = ''b''" "''a'' < ''b''" "''a'' \<le> ''b''" "\<not> ''b'' \<le> ''a''"
  by code_simp+

lemma A_before_b:
  assumes "name b1 = ''b''" "name b2 = ''A''"
  shows "builds_in_branch_sorted [b1, b2] = [b2, b1]" "builds_in_branch_sorted [b2, b1] = [b2, b1]"
  using assms lower_A_b by (simp_all add: builds_in_branch_sorted_def)

lemma rows_sorted:
  "sorted (map (\<lambda>b. lower (name b)) (builds_in_branch_sorted bs))"
  "mset (builds_in_branch_sorted bs) = mset bs"
  by (simp_all add: builds_in_branch_sorted_def)

text \<open>
  C6, as the code has it. The HTML projection is the parts of the branch sections joined by
  line feeds, one section for each branch of the rows; the sections stand in strictly
  descending order of the branch name, compared code point by code point; a section is the
  heading, the rule, the table and the rule, and the table holds the rows of the branch
  sorted by the lowercased builder name, ascending. For the branches \<^verbatim>\<open>main\<close> and
  \<^verbatim>\<open>dev\<close> the section of \<^verbatim>\<open>main\<close> comes first, then that of
  \<^verbatim>\<open>dev\<close>; of two rows named \<^verbatim>\<open>b\<close> and \<^verbatim>\<open>A\<close> the row
  \<^verbatim>\<open>A\<close> comes first.
\<close>

theorem html_sections_descending_rows_ascending:
  "builds_to_html_table builds =
     join_str [CHR 0x0A]
       (concat (map (\<lambda>br. branch_parts br (filter (\<lambda>b. branch b = br) builds))
                  (sorted_branches (group_by_branch builds))))
   \<and> set (sorted_branches (group_by_branch builds)) = branch ` set builds
   \<and> sorted_wrt (\<lambda>x y. y < x) (sorted_branches (group_by_branch builds))
   \<and> (\<forall>br bs. branch_parts br bs =
          [''<h3>Branch: '' @ br @ ''</h3>'', separator,
           table_html (builds_in_branch_sorted bs), separator])
   \<and> (\<forall>bs. table_html bs =
          ''<table border='1' cellpadding='4' cellspacing='0' style='border-collapse:collapse'>''
            @ ''<tr><th>Build</th><th>Commit</th><th>Status</th></tr>''
            @ concat (map html_row bs) @ ''</table>'')
   \<and> (\<forall>bs. sorted (map (\<lambda>b. lower (name b)) (builds_in_branch_sorted bs))
            \<and> mset (builds_in_branch_sorted bs) = mset bs)
   \<and> (branch ` set builds = {''main'', ''dev''} \<longrightarrow>
          sorted_branches (group_by_branch builds) = [''main'', ''dev''])
   \<and> (\<forall>(b1::Build) (b2::Build). name b1 = ''b'' \<and> name b2 = ''A'' \<longrightarrow>
          builds_in_branch_sorted [b1, b2] = [b2, b1] \<and> builds_in_branch_sorted [b2, b1] = [b2, b1])"
proof (intro conjI allI impI)
  show "builds_to_html_table builds =
     join_str [CHR 0x0A]
       (concat (map (\<lambda>br. branch_parts br (filter (\<lambda>b. branch b = br) builds))
                  (sorted_branches (group_by_branch builds))))"
    unfolding builds_to_html_table_def html_parts_concat ..
next
  show "set (sorted_branches (group_by_branch builds)) = branch ` set builds"
    by (rule sorted_branches_set)
next
  show "sorted_wrt (\<lambda>x y. y < x) (sorted_branches (group_by_branch builds))"
    by (rule sorted_branches_descending)
next
  fix br bs
  show "branch_parts br bs =
          [''<h3>Branch: '' @ br @ ''</h3>'', separator,
           table_html (builds_in_branch_sorted bs), separator]"
    by (rule branch_parts_def)
next
  fix bs
  show "table_html bs =
          ''<table border='1' cellpadding='4' cellspacing='0' style='border-collapse:collapse'>''
            @ ''<tr><th>Build</th><th>Commit</th><th>Status</th></tr>''
            @ concat (map html_row bs) @ ''</table>''"
    by (simp add: table_html_def)
next
  fix bs
  show "sorted (map (\<lambda>b. lower (name b)) (builds_in_branch_sorted bs))"
    by (rule rows_sorted)
next
  fix bs
  show "mset (builds_in_branch_sorted bs) = mset bs"
    by (rule rows_sorted)
next
  assume "branch ` set builds = {''main'', ''dev''}"
  then show "sorted_branches (group_by_branch builds) = [''main'', ''dev'']"
    by (rule main_dev_order)
next
  fix b1 b2 :: Build
  assume "name b1 = ''b'' \<and> name b2 = ''A''"
  then show "builds_in_branch_sorted [b1, b2] = [b2, b1]"
    using A_before_b(1) by blast
next
  fix b1 b2 :: Build
  assume "name b1 = ''b'' \<and> name b2 = ''A''"
  then show "builds_in_branch_sorted [b2, b1] = [b2, b1]"
    using A_before_b(2) by blast
qed

theorem html_sections_descending_rows_ascending_witness:
  "sorted_branches (group_by_branch
     [\<lparr>name = ''b'', url = ''u1'', commit = ''c'', branch = ''dev'', status = Some ''failed''\<rparr>,
      \<lparr>name = ''x'', url = ''u2'', commit = ''c'', branch = ''main'', status = None\<rparr>,
      \<lparr>name = ''A'', url = ''u3'', commit = ''c'', branch = ''dev'', status = Some ''failed''\<rparr>])
     = [''main'', ''dev'']
   \<and> builds_in_branch_sorted
     [\<lparr>name = ''b'', url = ''u1'', commit = ''c'', branch = ''dev'', status = Some ''failed''\<rparr>,
      \<lparr>name = ''A'', url = ''u3'', commit = ''c'', branch = ''dev'', status = Some ''failed''\<rparr>]
     = [\<lparr>name = ''A'', url = ''u3'', commit = ''c'', branch = ''dev'', status = Some ''failed''\<rparr>,
        \<lparr>name = ''b'', url = ''u1'', commit = ''c'', branch = ''dev'', status = Some ''failed''\<rparr>]
   \<and> builds_to_html_table
     [\<lparr>name = ''b'', url = ''u1'', commit = ''c'', branch = ''dev'', status = Some ''failed''\<rparr>,
      \<lparr>name = ''x'', url = ''u2'', commit = ''c'', branch = ''main'', status = None\<rparr>,
      \<lparr>name = ''A'', url = ''u3'', commit = ''c'', branch = ''dev'', status = Some ''failed''\<rparr>]
     = ''<h3>Branch: main</h3>'' @ [CHR 0x0A] @ separator @ [CHR 0x0A]
       @ table_html [\<lparr>name = ''x'', url = ''u2'', commit = ''c'', branch = ''main'', status = None\<rparr>]
       @ [CHR 0x0A] @ separator @ [CHR 0x0A]
       @ ''<h3>Branch: dev</h3>'' @ [CHR 0x0A] @ separator @ [CHR 0x0A]
       @ table_html
           [\<lparr>name = ''A'', url = ''u3'', commit = ''c'', branch = ''dev'', status = Some ''failed''\<rparr>,
            \<lparr>name = ''b'', url = ''u1'', commit = ''c'', branch = ''dev'', status = Some ''failed''\<rparr>]
       @ [CHR 0x0A] @ separator"
proof -
  let ?builds = "[\<lparr>name = ''b'', url = ''u1'', commit = ''c'', branch = ''dev'', status = Some ''failed''\<rparr>,
      \<lparr>name = ''x'', url = ''u2'', commit = ''c'', branch = ''main'', status = None\<rparr>,
      \<lparr>name = ''A'', url = ''u3'', commit = ''c'', branch = ''dev'', status = Some ''failed''\<rparr>]"
  have branches: "branch ` set ?builds = {''main'', ''dev''}"
    by auto
  note t = html_sections_descending_rows_ascending[of ?builds]
  from t branches have order: "sorted_branches (group_by_branch ?builds) = [''main'', ''dev'']"
    by blast
  from t have rows: "builds_in_branch_sorted
     [\<lparr>name = ''b'', url = ''u1'', commit = ''c'', branch = ''dev'', status = Some ''failed''\<rparr>,
      \<lparr>name = ''A'', url = ''u3'', commit = ''c'', branch = ''dev'', status = Some ''failed''\<rparr>]
     = [\<lparr>name = ''A'', url = ''u3'', commit = ''c'', branch = ''dev'', status = Some ''failed''\<rparr>,
        \<lparr>name = ''b'', url = ''u1'', commit = ''c'', branch = ''dev'', status = Some ''failed''\<rparr>]"
    by simp
  have one: "builds_in_branch_sorted [b] = [b]" for b
    by (simp add: builds_in_branch_sorted_def)
  from t have "builds_to_html_table ?builds =
     join_str [CHR 0x0A]
       (concat (map (\<lambda>br. branch_parts br (filter (\<lambda>b. branch b = br) ?builds))
                  (sorted_branches (group_by_branch ?builds))))"
    by blast
  then have html: "builds_to_html_table ?builds =
     join_str [CHR 0x0A]
       (concat (map (\<lambda>br. branch_parts br (filter (\<lambda>b. branch b = br) ?builds)) [''main'', ''dev'']))"
    unfolding order .
  show ?thesis
    unfolding html using order rows one by (simp add: branch_parts_def)
qed

text \<open>
  The example of C6 as the specification words it, with the section of \<^verbatim>\<open>dev\<close>
  before that of \<^verbatim>\<open>main\<close>, does not hold: on one row of branch \<^verbatim>\<open>dev\<close> and
  one of branch \<^verbatim>\<open>main\<close> the sections are iterated as \<^verbatim>\<open>main\<close>,
  \<^verbatim>\<open>dev\<close>, and the text starts with the heading of \<^verbatim>\<open>main\<close>.
\<close>

theorem html_sections_main_before_dev:
  "sorted_branches (group_by_branch
     [\<lparr>name = ''b1'', url = ''u1'', commit = ''c1'', branch = ''dev'', status = Some ''failed''\<rparr>,
      \<lparr>name = ''b2'', url = ''u2'', commit = ''c2'', branch = ''main'', status = Some ''failed''\<rparr>])
     = [''main'', ''dev'']
   \<and> sorted_branches (group_by_branch
     [\<lparr>name = ''b1'', url = ''u1'', commit = ''c1'', branch = ''dev'', status = Some ''failed''\<rparr>,
      \<lparr>name = ''b2'', url = ''u2'', commit = ''c2'', branch = ''main'', status = Some ''failed''\<rparr>])
     \<noteq> [''dev'', ''main'']
   \<and> builds_to_html_table
     [\<lparr>name = ''b1'', url = ''u1'', commit = ''c1'', branch = ''dev'', status = Some ''failed''\<rparr>,
      \<lparr>name = ''b2'', url = ''u2'', commit = ''c2'', branch = ''main'', status = Some ''failed''\<rparr>]
     = ''<h3>Branch: main</h3>'' @ [CHR 0x0A] @ separator @ [CHR 0x0A]
       @ table_html [\<lparr>name = ''b2'', url = ''u2'', commit = ''c2'', branch = ''main'', status = Some ''failed''\<rparr>]
       @ [CHR 0x0A] @ separator @ [CHR 0x0A]
       @ ''<h3>Branch: dev</h3>'' @ [CHR 0x0A] @ separator @ [CHR 0x0A]
       @ table_html [\<lparr>name = ''b1'', url = ''u1'', commit = ''c1'', branch = ''dev'', status = Some ''failed''\<rparr>]
       @ [CHR 0x0A] @ separator"
proof -
  have order: "sorted_branches (group_by_branch
     [\<lparr>name = ''b1'', url = ''u1'', commit = ''c1'', branch = ''dev'', status = Some ''failed''\<rparr>,
      \<lparr>name = ''b2'', url = ''u2'', commit = ''c2'', branch = ''main'', status = Some ''failed''\<rparr>])
     = [''main'', ''dev'']"
    by (rule main_dev_order) auto
  show ?thesis
    unfolding builds_to_html_table_def html_parts_concat order
    by (simp add: order branch_parts_def builds_in_branch_sorted_def)
qed

end
